theory Spec2Isabelle
  imports Complex_Main
begin

section \<open>Python values shared by the modules\<close>

text \<open>
  Exceptions are values: a function of the source that can raise returns
  \<open>error + 'a\<close>, with \<open>Inl\<close> carrying the exception class and its message.
\<close>

datatype exc_type =
  TypeError | ValueError | KeyError | IndexError | ReadError
  | AttributeError | UnboundLocalError | FileNotFoundError | OverflowError

type_synonym error = "exc_type \<times> string"

text \<open>
  A cell of a numpy float array. \<open>NaN\<close> is the marker that \<open>np.genfromtxt\<close> fills
  in for a missing value; a finite value is modelled by the real number it denotes
  (rounding is not modelled). Arithmetic propagates \<open>NaN\<close>, and \<open>NaN\<close> compares
  unequal to everything, itself included.
\<close>

datatype float64 = NaN | Num real

fun float64_eq :: "float64 \<Rightarrow> float64 \<Rightarrow> bool" where
  "float64_eq (Num a) (Num b) = (a = b)"
| "float64_eq _ _ = False"

fun float64_add :: "float64 \<Rightarrow> float64 \<Rightarrow> float64" where
  "float64_add (Num a) (Num b) = Num (a + b)"
| "float64_add _ _ = NaN"

fun float64_mul :: "float64 \<Rightarrow> float64 \<Rightarrow> float64" where
  "float64_mul (Num a) (Num b) = Num (a * b)"
| "float64_mul _ _ = NaN"

fun isnan :: "float64 \<Rightarrow> bool" where
  "isnan NaN = True"
| "isnan (Num _) = False"

text \<open>
  Python slicing \<open>xs[begin:end]\<close> with step 1: a missing bound is the start or the
  end of the list, a negative bound counts from the end, and every bound is clipped
  to the list.
\<close>

definition slice_bound :: "nat \<Rightarrow> int \<Rightarrow> nat" where
  "slice_bound len i = (if i < 0 then nat (int len + i) else min (nat i) len)"

definition py_slice :: "int option \<Rightarrow> int option \<Rightarrow> 'a list \<Rightarrow> 'a list" where
  "py_slice begin end xs =
     (let lo = (case begin of None \<Rightarrow> 0 | Some b \<Rightarrow> slice_bound (length xs) b);
          hi = (case end of None \<Rightarrow> length xs | Some e \<Rightarrow> slice_bound (length xs) e)
      in drop lo (take hi xs))"

text \<open>\<open>enumerate(xs)\<close>: every element with its index.\<close>

definition enumerate_list :: "'a list \<Rightarrow> (nat \<times> 'a) list" where
  "enumerate_list xs = zip [0..<length xs] xs"

text \<open>
  \<open>itertools.zip_longest\<close> with the default fill value \<open>None\<close>: the shorter
  argument is padded with \<open>None\<close>.
\<close>

fun zip_longest :: "'a list \<Rightarrow> 'b list \<Rightarrow> ('a option \<times> 'b option) list" where
  "zip_longest [] [] = []"
| "zip_longest (x # xs) [] = (Some x, None) # zip_longest xs []"
| "zip_longest [] (y # ys) = (None, Some y) # zip_longest [] ys"
| "zip_longest (x # xs) (y # ys) = (Some x, Some y) # zip_longest xs ys"

text \<open>
  \<open>itertools.groupby\<close> without a key function: a group starts at the current
  element, whose value is the target key, and takes the following elements for as long
  as they compare equal to the target key. The result lists each key with its group.
\<close>

function groupby :: "('a \<Rightarrow> 'a \<Rightarrow> bool) \<Rightarrow> 'a list \<Rightarrow> ('a \<times> 'a list) list" where
  "groupby eq [] = []"
| "groupby eq (x # xs) =
     (x, x # takeWhile (\<lambda>y. eq y x) xs) # groupby eq (dropWhile (\<lambda>y. eq y x) xs)"
  by pat_completeness auto
termination
  by (relation "measure (\<lambda>(eq, xs). length xs)") (auto simp: length_dropWhile_le less_Suc_eq_le)

section \<open>readers/zilien.py: the splitting utilities\<close>

text \<open>
  \<open>ZilienTSVReader._get_series_splits\<close>: the indices of the non-empty series headers,
  paired by \<open>zip_longest\<close> with the same list without its first element, and the
  non-empty headers themselves. The last pair has no end: its second component is
  \<open>None\<close>.
\<close>

definition get_series_splits ::
  "string list \<Rightarrow> (nat option \<times> nat option) list \<times> string list" where
  "get_series_splits series_headers =
     (let nonempty = filter (\<lambda>(index, series_header). series_header \<noteq> '''')
                        (enumerate_list series_headers);
          series_split_indices = map fst nonempty;
          nonempty_headers = map snd nonempty
      in (zip_longest series_split_indices (drop 1 series_split_indices), nonempty_headers))"

text \<open>
  \<open>ZilienTSVReader._get_biologic_splits\<close>: one \<open>(index, index + group_length)\<close> pair
  per group of \<open>groupby\<close>, the running index advancing by the length of each group.
\<close>

fun biologic_splits_from :: "nat \<Rightarrow> ('k \<times> 'a list) list \<Rightarrow> (nat \<times> nat) list" where
  "biologic_splits_from index [] = []"
| "biologic_splits_from index ((k, grp) # grps) =
     (index, index + length grp) # biologic_splits_from (index + length grp) grps"

definition get_biologic_splits :: "float64 list \<Rightarrow> (nat \<times> nat) list" where
  "get_biologic_splits technique_numbers =
     biologic_splits_from 0 (groupby float64_eq technique_numbers)"

text \<open>
  The composite run key of \<open>_biologic_dataset_part\<close>:
  \<open>split_vector = exp_nums * 1000 + tech_nums\<close>, elementwise.
\<close>

definition split_vector :: "float64 list \<Rightarrow> float64 list \<Rightarrow> float64 list" where
  "split_vector exp_nums tech_nums =
     map (\<lambda>(e, t). float64_add (float64_mul e (Num 1000)) t) (zip exp_nums tech_nums)"

text \<open>The row indices that the slice \<open>[begin:end]\<close> selects out of \<open>n\<close> rows or columns.\<close>

definition selected :: "nat \<Rightarrow> nat option \<times> nat option \<Rightarrow> nat list" where
  "selected n r = py_slice (map_option int (fst r)) (map_option int (snd r)) [0..<n]"


section \<open>techniques/cv.py: cycle segmentation\<close>

text \<open>Comparison of an array cell with a Python float: false on \<open>NaN\<close>.\<close>

fun float64_lt :: "float64 \<Rightarrow> real \<Rightarrow> bool" where
  "float64_lt (Num a) s = (a < s)"
| "float64_lt NaN s = False"

fun float64_gt :: "float64 \<Rightarrow> real \<Rightarrow> bool" where
  "float64_gt (Num a) s = (a > s)"
| "float64_gt NaN s = False"

fun float64_neg :: "float64 \<Rightarrow> float64" where
  "float64_neg (Num a) = Num (- a)"
| "float64_neg NaN = NaN"

text \<open>\<open>np.argmax\<close> of a boolean mask that holds \<open>True\<close>: the index of the first \<open>True\<close>.\<close>

definition argmax :: "bool list \<Rightarrow> nat" where
  "argmax msk = length (takeWhile (\<lambda>b. \<not> b) msk)"

text \<open>The slice assignment \<open>xs[n:] = c\<close> of a numpy array: every cell from \<open>n\<close> on becomes \<open>c\<close>.\<close>

definition slice_assign_from :: "int \<Rightarrow> 'a \<Rightarrow> 'a list \<Rightarrow> 'a list" where
  "slice_assign_from n c xs =
     (let lo = slice_bound (length xs) n in take lo xs @ replicate (length xs - lo) c)"

text \<open>
  The index \<open>n\<close> starts as the Python integer 0. \<open>np.argmax\<close> returns an \<open>np.int64\<close>,
  so from the first \<open>n += np.argmax(mask_behind) + N_points\<close> on, \<open>n\<close> is an \<open>np.int64\<close>,
  and a sum of such scalars that leaves the range of 64 bits wraps around (numpy warns
  and goes on). \<open>int64\<close> is that wrap-around on the integers. A Python integer can be
  added to an \<open>np.int64\<close> only when it is in the range of 64 bits itself: otherwise the
  run ends with an exception (\<open>OverflowError\<close> in numpy 2; earlier versions make the sum
  a float, which the next slice refuses).
\<close>

definition int64 :: "int \<Rightarrow> int" where
  "int64 i = (i + 2 ^ 63) mod 2 ^ 64 - 2 ^ 63"

definition fits_int64 :: "int \<Rightarrow> bool" where
  "fits_int64 i = (- (2 ^ 63) \<le> i \<and> i < 2 ^ 63)"

text \<open>
  The \<open>while n < N\<close> loop of \<open>CyclicVoltammagram.redefine_cycle\<close>, with the loop
  variables \<open>n\<close>, \<open>c\<close> and \<open>cycle_vec\<close> as arguments. The two \<open>break\<close>s and the exit of
  the loop return the cycle vector. Nothing in the source bounds \<open>N_points\<close>, and with a
  negative \<open>N_points\<close>, or when the index wraps around, the index can move backwards, so
  the loop is a partial function: \<open>None\<close> is a run that does not return.
\<close>

partial_function (option) redefine_cycle_loop ::
  "float64 list \<Rightarrow> real \<Rightarrow> int \<Rightarrow> int \<Rightarrow> int \<Rightarrow> int \<Rightarrow> real list
     \<Rightarrow> (error + real list) option" where
  "redefine_cycle_loop v start_potential N_points N n c cycle_vec =
     (if n < N then
        (let mask_behind = map (\<lambda>x. float64_lt x start_potential) (py_slice (Some n) None v)
         in if True \<notin> set mask_behind then Some (Inr cycle_vec)
            else if \<not> fits_int64 N_points
              then Some (Inl (OverflowError, ''Python integer out of bounds for int64''))
            else
              (let n1 = int64 (n + int64 (int (argmax mask_behind) + N_points));
                   mask_in_front =
                     map (\<lambda>x. float64_gt x start_potential) (py_slice (Some n1) None v)
               in if True \<notin> set mask_in_front then Some (Inr cycle_vec)
                  else
                    (let n2 = int64 (n1 + int (argmax mask_in_front));
                         c' = c + 1;
                         cycle_vec' = slice_assign_from n2 (of_int c') cycle_vec
                     in redefine_cycle_loop v start_potential N_points N
                          (int64 (n2 + N_points)) c' cycle_vec')))
      else Some (Inr cycle_vec))"

declare redefine_cycle_loop.simps [code]

text \<open>
  \<open>CyclicVoltammagram.redefine_cycle\<close>, as the data of the new \<open>cycle\<close> series.
  \<open>t\<close> and \<open>v\<close> are the time and potential arrays of the measurement and
  \<open>cycle_number\<close> is the data of the series that \<open>self["cycle_number"]\<close> looks up, used
  only when \<open>start_potential\<close> is \<open>None\<close>; there \<open>min\<close> of an empty array raises.
  \<open>not redox\<close> holds for \<open>None\<close> and for \<open>False\<close>.
\<close>

definition redefine_cycle ::
  "real list \<Rightarrow> float64 list \<Rightarrow> real list \<Rightarrow> real option \<Rightarrow> bool option \<Rightarrow> int
     \<Rightarrow> (error + real list) option" where
  "redefine_cycle t v cycle_number start_potential redox N_points =
     (case start_potential of
        None \<Rightarrow>
          (if cycle_number = []
           then Some (Inl (ValueError, ''min() arg is an empty sequence''))
           else Some (Inr (map (\<lambda>x. x - Min (set cycle_number)) cycle_number)))
      | Some sp \<Rightarrow>
          (let cycle_vec = replicate (length t) 0;
               N = int (length t);
               (sp', v') = (if redox \<noteq> Some True then (- sp, map float64_neg v) else (sp, v))
           in redefine_cycle_loop v' sp' N_points N 0 0 cycle_vec))"

section \<open>spectra.py: the Spectrum class\<close>

text \<open>Sequencing of computations that can raise: the first exception ends the run.\<close>

definition bind_err :: "error + 'a \<Rightarrow> ('a \<Rightarrow> error + 'b) \<Rightarrow> error + 'b" where
  "bind_err m f = (case m of Inl e \<Rightarrow> Inl e | Inr x \<Rightarrow> f x)"

text \<open>
  A numpy array of any dimension: a cell, or a sequence of arrays one dimension lower.
  \<open>np.array([a])\<close> is \<open>Array [a]\<close>.
\<close>

datatype ndarray = Scalar float64 | Array "ndarray list"

fun shape :: "ndarray \<Rightarrow> nat list" where
  "shape (Scalar _) = []"
| "shape (Array []) = [0]"
| "shape (Array (a # as)) = Suc (length as) # shape a"

text \<open>\<open>len(a)\<close> and \<open>a[0]\<close>; both raise on a cell, and \<open>a[0]\<close> raises on an empty array.\<close>

fun np_len :: "ndarray \<Rightarrow> error + nat" where
  "np_len (Scalar _) = Inl (TypeError, ''len() of unsized object'')"
| "np_len (Array as) = Inr (length as)"

fun np_first :: "ndarray \<Rightarrow> error + ndarray" where
  "np_first (Scalar _) = Inl (IndexError, ''invalid index to scalar variable.'')"
| "np_first (Array []) = Inl (IndexError, ''index 0 is out of bounds for axis 0 with size 0'')"
| "np_first (Array (a # as)) = Inr a"

text \<open>\<open>a + t\<close> for an array and a float, cell by cell.\<close>

fun np_add_float :: "ndarray \<Rightarrow> float64 \<Rightarrow> ndarray" where
  "np_add_float (Scalar c) t = Scalar (float64_add c t)"
| "np_add_float (Array as) t = Array (map (\<lambda>a. np_add_float a t) as)"

text \<open>
  Modelled from the spec: the classes \<open>DataSeries\<close>, \<open>TimeSeries\<close> and \<open>Field\<close> of
  \<open>data_series.py\<close>, which is not among the sources. A series has a name, a unit name
  and data; a \<open>TimeSeries\<close> has a \<open>tstamp\<close> as well; a \<open>ValueSeries\<close> refers to the
  \<open>TimeSeries\<close> of its time axis; a \<open>Field\<close> has data and \<open>axes_series\<close>, the ordered
  list of the series that span it. The objects of a spectrum live in a store and a field
  refers to its axes by address. A \<open>ValueSeries\<close> holds its \<open>TimeSeries\<close> as a value.
\<close>

datatype data_obj =
    DataSeries string "string option" ndarray
  | TimeSeries string "string option" ndarray "float64 option"
  | ValueSeries string "string option" ndarray data_obj
  | Field string "string option" ndarray "nat list"

type_synonym store = "data_obj list"

fun obj_name :: "data_obj \<Rightarrow> string" where
  "obj_name (DataSeries n u d) = n"
| "obj_name (TimeSeries n u d ts) = n"
| "obj_name (ValueSeries n u d tseries) = n"
| "obj_name (Field n u d axes) = n"

fun obj_unit_name :: "data_obj \<Rightarrow> string option" where
  "obj_unit_name (DataSeries n u d) = u"
| "obj_unit_name (TimeSeries n u d ts) = u"
| "obj_unit_name (ValueSeries n u d tseries) = u"
| "obj_unit_name (Field n u d axes) = u"

fun obj_data :: "data_obj \<Rightarrow> ndarray" where
  "obj_data (DataSeries n u d) = d"
| "obj_data (TimeSeries n u d ts) = d"
| "obj_data (ValueSeries n u d tseries) = d"
| "obj_data (Field n u d axes) = d"

fun obj_tstamp :: "data_obj \<Rightarrow> error + float64 option" where
  "obj_tstamp (TimeSeries n u d ts) = Inr ts"
| "obj_tstamp _ = Inl (AttributeError, ''object has no attribute tstamp'')"

fun axes_series :: "data_obj \<Rightarrow> error + nat list" where
  "axes_series (Field n u d axes) = Inr axes"
| "axes_series _ = Inl (AttributeError, ''object has no attribute axes_series'')"

text \<open>Creating an object puts it at a fresh address; reading follows an address.\<close>

definition alloc :: "data_obj \<Rightarrow> store \<Rightarrow> nat \<times> store" where
  "alloc obj st = (length st, st @ [obj])"

definition deref :: "store \<Rightarrow> nat \<Rightarrow> error + data_obj" where
  "deref st a = (if a < length st then Inr (st ! a)
                 else Inl (AttributeError, ''no object at this address''))"

text \<open>The list index \<open>xs[i]\<close>.\<close>

definition list_index :: "'a list \<Rightarrow> nat \<Rightarrow> error + 'a" where
  "list_index xs i = (if i < length xs then Inr (xs ! i)
                      else Inl (IndexError, ''list index out of range''))"

text \<open>
  The attribute \<open>_field\<close> of a spectrum: the field itself, or the
  \<open>PlaceHolderObject(field_id, cls=Field)\<close> that stands for a field not yet loaded.
\<close>

datatype field_ref = Loaded nat | PlaceHolderObject "nat option"

record spectrum =
  sp_name :: string
  sp_technique :: "string option"
  sp_metadata :: "string option"
  sp_sample_name :: "string option"
  sp_reader :: "string option"
  sp_field :: field_ref

text \<open>The keyword arguments that the constructors pass on to \<open>Spectrum.__init__\<close>.\<close>

record spectrum_kwargs =
  kw_name :: "string option"
  kw_technique :: "string option"
  kw_metadata :: "string option"
  kw_sample_name :: "string option"
  kw_reader :: "string option"
  kw_field_id :: "nat option"

text \<open>\<open>Spectrum.__init__\<close>: \<open>self._field = field or PlaceHolderObject(field_id, cls=Field)\<close>.\<close>

definition Spectrum_init ::
  "string \<Rightarrow> string option \<Rightarrow> string option \<Rightarrow> string option \<Rightarrow> string option
     \<Rightarrow> nat option \<Rightarrow> nat option \<Rightarrow> spectrum" where
  "Spectrum_init name technique metadata sample_name reader field field_id =
     \<lparr> sp_name = name, sp_technique = technique, sp_metadata = metadata,
       sp_sample_name = sample_name, sp_reader = reader,
       sp_field = (case field of Some f \<Rightarrow> Loaded f | None \<Rightarrow> PlaceHolderObject field_id) \<rparr>"

text \<open>
  \<open>Spectrum.from_field\<close>: the field goes into the keyword arguments, the name defaults to
  the name of the field, and \<open>cls.from_dict\<close> calls the constructor with them.
  Modelled from the spec: \<open>Saveable.from_dict\<close> of \<open>db.py\<close>, not among the sources, as the
  call \<open>cls(**obj_as_dict)\<close>.
\<close>

definition from_field :: "store \<Rightarrow> nat \<Rightarrow> spectrum_kwargs \<Rightarrow> error + spectrum" where
  "from_field st field kwargs =
     bind_err (case kw_name kwargs of
                 Some n \<Rightarrow> Inr n
               | None \<Rightarrow> bind_err (deref st field) (\<lambda>f. Inr (obj_name f)))
       (\<lambda>name. Inr (Spectrum_init name (kw_technique kwargs) (kw_metadata kwargs)
                      (kw_sample_name kwargs) (kw_reader kwargs) (Some field)
                      (kw_field_id kwargs)))"

text \<open>
  \<open>Spectrum.from_series\<close>: a new one-sample \<open>TimeSeries\<close> with data \<open>np.array([0])\<close>, and a
  new \<open>Field\<close> with data \<open>np.array([yseries.data])\<close> over the axes \<open>[xseries, tseries]\<close>.
\<close>

definition from_series ::
  "store \<Rightarrow> nat \<Rightarrow> nat \<Rightarrow> float64 option \<Rightarrow> spectrum_kwargs \<Rightarrow> error + spectrum \<times> store" where
  "from_series st xseries yseries tstamp kwargs =
     (let (tseries, st1) =
            alloc (TimeSeries ''spectrum time / [s]'' (Some ''s'') (Array [Scalar (Num 0)]) tstamp) st
      in bind_err (deref st1 yseries) (\<lambda>y.
           let (field, st2) =
                 alloc (Field (obj_name y) (obj_unit_name y) (Array [obj_data y])
                          [xseries, tseries]) st1
           in bind_err (from_field st2 field kwargs) (\<lambda>sp. Inr (sp, st2))))"

text \<open>\<open>Spectrum.from_data\<close>: two new \<open>DataSeries\<close> for the x and the y data, then \<open>from_series\<close>.\<close>

definition from_data ::
  "store \<Rightarrow> ndarray \<Rightarrow> ndarray \<Rightarrow> float64 option \<Rightarrow> string \<Rightarrow> string \<Rightarrow> string option
     \<Rightarrow> string option \<Rightarrow> spectrum_kwargs \<Rightarrow> error + spectrum \<times> store" where
  "from_data st x y tstamp x_name y_name x_unit_name y_unit_name kwargs =
     (let (xseries, st1) = alloc (DataSeries x_name x_unit_name x) st;
          (yseries, st2) = alloc (DataSeries y_name y_unit_name y) st1
      in from_series st2 xseries yseries tstamp kwargs)"

text \<open>
  The property \<open>Spectrum.field\<close>: a placeholder is replaced by the object it stands for.
  Modelled from the spec: \<open>PlaceHolderObject.get_object\<close> of \<open>db.py\<close>, not among the
  sources, as the parameter \<open>get_object\<close> that gives the address of the loaded field.
\<close>

definition spectrum_field :: "(nat option \<Rightarrow> nat) \<Rightarrow> spectrum \<Rightarrow> nat \<times> spectrum" where
  "spectrum_field get_object sp =
     (case sp_field sp of
        Loaded f \<Rightarrow> (f, sp)
      | PlaceHolderObject field_id \<Rightarrow>
          (let f = get_object field_id in (f, sp\<lparr> sp_field := Loaded f \<rparr>)))"

text \<open>
  The properties \<open>xseries\<close>, \<open>x\<close>, \<open>y\<close>, \<open>tseries\<close> and \<open>tstamp\<close> of \<open>Spectrum\<close>, named
  here with the class in front.
\<close>

definition spectrum_xseries :: "(nat option \<Rightarrow> nat) \<Rightarrow> store \<Rightarrow> spectrum \<Rightarrow> error + data_obj" where
  "spectrum_xseries get_object st sp =
     bind_err (deref st (fst (spectrum_field get_object sp))) (\<lambda>f.
     bind_err (axes_series f) (\<lambda>axes.
     bind_err (list_index axes 0) (\<lambda>a. deref st a)))"

definition spectrum_x :: "(nat option \<Rightarrow> nat) \<Rightarrow> store \<Rightarrow> spectrum \<Rightarrow> error + ndarray" where
  "spectrum_x get_object st sp = bind_err (spectrum_xseries get_object st sp) (\<lambda>s. Inr (obj_data s))"

definition spectrum_y :: "(nat option \<Rightarrow> nat) \<Rightarrow> store \<Rightarrow> spectrum \<Rightarrow> error + ndarray" where
  "spectrum_y get_object st sp =
     bind_err (deref st (fst (spectrum_field get_object sp))) (\<lambda>f. np_first (obj_data f))"

definition spectrum_tseries :: "(nat option \<Rightarrow> nat) \<Rightarrow> store \<Rightarrow> spectrum \<Rightarrow> error + data_obj" where
  "spectrum_tseries get_object st sp =
     bind_err (deref st (fst (spectrum_field get_object sp))) (\<lambda>f.
     bind_err (axes_series f) (\<lambda>axes.
     bind_err (list_index axes 1) (\<lambda>a. deref st a)))"

definition spectrum_tstamp :: "(nat option \<Rightarrow> nat) \<Rightarrow> store \<Rightarrow> spectrum \<Rightarrow> error + ndarray" where
  "spectrum_tstamp get_object st sp =
     bind_err (spectrum_tseries get_object st sp) (\<lambda>ts.
     bind_err (np_first (obj_data ts)) (\<lambda>t0.
     bind_err (obj_tstamp ts) (\<lambda>stamp.
       case stamp of
         None \<Rightarrow> Inl (TypeError, ''unsupported operand type(s) for +: int and NoneType'')
       | Some t \<Rightarrow> Inr (np_add_float t0 t))))"

text \<open>The shape invariant of a field: \<open>data.shape[i] == len(axes[i].data)\<close> for every axis.\<close>

definition axes_lengths :: "store \<Rightarrow> data_obj \<Rightarrow> (error + nat) list" where
  "axes_lengths st fld =
     (case axes_series fld of
        Inl e \<Rightarrow> []
      | Inr axes \<Rightarrow> map (\<lambda>a. bind_err (deref st a) (\<lambda>s. np_len (obj_data s))) axes)"

definition field_shape_ok :: "store \<Rightarrow> data_obj \<Rightarrow> bool" where
  "field_shape_ok st fld = (axes_lengths st fld = map Inr (shape (obj_data fld)))"

section \<open>readers/zilien.py: strings, dictionaries and metadata lines\<close>

text \<open>
  The string methods the reader uses: \<open>s.strip("\n")\<close>, \<open>s.split(sep)\<close> for a separator
  of one character, \<open>sep.join(xs)\<close>, \<open>s.lower()\<close> on ASCII letters, \<open>s.endswith(t)\<close> and
  the substring test \<open>t in s\<close>.
\<close>

definition newline :: char where
  "newline = CHR 0x0A"

definition tab :: char where
  "tab = CHR 0x09"

definition py_strip_newlines :: "string \<Rightarrow> string" where
  "py_strip_newlines s =
     rev (dropWhile (\<lambda>c. c = newline) (rev (dropWhile (\<lambda>c. c = newline) s)))"

fun py_split :: "char \<Rightarrow> string \<Rightarrow> string list" where
  "py_split sep [] = [[]]"
| "py_split sep (c # cs) =
     (if c = sep then [] # py_split sep cs
      else (case py_split sep cs of
              [] \<Rightarrow> [[c]]
            | w # ws \<Rightarrow> (c # w) # ws))"

fun py_join :: "string \<Rightarrow> string list \<Rightarrow> string" where
  "py_join sep [] = []"
| "py_join sep [w] = w"
| "py_join sep (w # ws) = w @ sep @ py_join sep ws"

definition py_lower :: "string \<Rightarrow> string" where
  "py_lower s =
     map (\<lambda>c. if c \<in> set ''ABCDEFGHIJKLMNOPQRSTUVWXYZ''
              then char_of (of_char c + (32 :: nat)) else c) s"

definition py_endswith :: "string \<Rightarrow> string \<Rightarrow> bool" where
  "py_endswith s t = (length t \<le> length s \<and> drop (length s - length t) s = t)"

fun py_contains :: "string \<Rightarrow> string \<Rightarrow> bool" where
  "py_contains [] t = (t = [])"
| "py_contains (c # cs) t = (take (length t) (c # cs) = t \<or> py_contains cs t)"

text \<open>
  A \<open>dict\<close> keeps its keys in the order in which they were first set. A
  \<open>defaultdict(list)\<close> reads a missing key as the empty list, and \<open>d[k] += v\<close> extends the
  list of \<open>k\<close> in place, with a new key going to the end.
\<close>

type_synonym ('k, 'v) dict = "('k \<times> 'v) list"

definition dict_set :: "('k, 'v) dict \<Rightarrow> 'k \<Rightarrow> 'v \<Rightarrow> ('k, 'v) dict" where
  "dict_set d k v =
     (if k \<in> set (map fst d) then map (\<lambda>(k', v'). if k' = k then (k', v) else (k', v')) d
      else d @ [(k, v)])"

definition dd_get :: "('k, 'v list) dict \<Rightarrow> 'k \<Rightarrow> 'v list" where
  "dd_get d k = (case map_of d k of None \<Rightarrow> [] | Some vs \<Rightarrow> vs)"

definition dd_extend :: "('k, 'v list) dict \<Rightarrow> 'k \<Rightarrow> 'v list \<Rightarrow> ('k, 'v list) dict" where
  "dd_extend d k vs = dict_set d k (dd_get d k @ vs)"

text \<open>
  What the reader takes from outside the repository and from modules that are not among
  the sources, as parameters: the built-ins \<open>int\<close> and \<open>float\<close> on strings, opening a file
  and reading its lines, \<open>np.genfromtxt\<close> on the lines that follow the headers (the array
  as the list of its columns), \<open>Path.stem\<close>, \<open>pd.read_csv\<close> with \<open>header=9\<close> (the data
  frame as its named columns), and, from \<open>reading_tools.py\<close>,
  \<open>timestamp_string_to_tstamp\<close> with the Zilien form and the search for \<open>FLOAT_MATCH\<close>.
\<close>

record env =
  py_int :: "string \<Rightarrow> error + int"
  py_float :: "string \<Rightarrow> error + float64"
  open_file :: "string \<Rightarrow> error + string list"
  genfromtxt :: "string list \<Rightarrow> error + float64 list list"
  path_stem :: "string \<Rightarrow> string"
  path_name :: "string \<Rightarrow> string"
  timestamp_string_to_tstamp :: "string \<Rightarrow> error + float64"
  read_csv :: "string \<Rightarrow> error + (string, float64 list) dict"
  search_float :: "string \<Rightarrow> string option"

text \<open>The value of a metadata item, after the conversion that its type tag asks for.\<close>

datatype md_value = MStr string | MInt int | MFloat float64 | MBool bool

text \<open>
  \<open>parse_metadata_line\<close>: five tab-separated fields; a name is prefixed with the series
  it is attached to; the value is converted by the type tag, and an unknown tag raises
  \<open>TypeError\<close>. Unpacking anything but five fields raises \<open>ValueError\<close>.
\<close>

definition parse_metadata_line :: "env \<Rightarrow> string \<Rightarrow> error + string \<times> md_value" where
  "parse_metadata_line env line =
     (case py_split tab (py_strip_newlines line) of
        [name, comment, attach_to_series, type_as_str, v] \<Rightarrow>
          (let full_name = (if attach_to_series \<noteq> [] then attach_to_series @ ''_'' @ name
                            else name)
           in if type_as_str = ''string'' then Inr (full_name, MStr v)
              else if type_as_str = ''int''
                then bind_err (py_int env v) (\<lambda>i. Inr (full_name, MInt i))
              else if type_as_str = ''double''
                then bind_err (py_float env v) (\<lambda>f. Inr (full_name, MFloat f))
              else if type_as_str = ''bool'' then Inr (full_name, MBool (v = ''true''))
              else Inl (TypeError,
                        ''Unknown metadata type '' @ type_as_str @ '' for '' @ name))
      | _ \<Rightarrow> Inl (ValueError, ''wrong number of values to unpack (expected 5)''))"

text \<open>\<open>to_snake_case\<close>.\<close>

definition to_snake_case :: "string \<Rightarrow> string" where
  "to_snake_case s = map (\<lambda>c. if c = CHR '' '' then CHR ''_'' else c) (py_lower s)"

section \<open>readers/zilien.py: names and units from the headers\<close>

text \<open>
  A \<open>$\<close> at the end of a pattern also matches before one final newline, and \<open>.\<close>
  matches every character but the newline.
\<close>

definition without_final_newline :: "string \<Rightarrow> string" where
  "without_final_newline s = (if s \<noteq> [] \<and> last s = newline then butlast s else s)"

definition is_digit :: "char \<Rightarrow> bool" where
  "is_digit c = (c \<in> set ''0123456789'')"

text \<open>
  \<open>to_mass\<close>, that is \<open>MASS_SERIES_RE = ^C[0-9]+M([0-9]+)$\<close> matched from the start:
  \<open>C\<close>, one digit or more, \<open>M\<close>, one digit or more, and the end. The result is the
  second run of digits.
\<close>

definition to_mass :: "string \<Rightarrow> string option" where
  "to_mass s =
     (case without_final_newline s of
        [] \<Rightarrow> None
      | c # rest \<Rightarrow>
          (if c = CHR ''C'' \<and> takeWhile is_digit rest \<noteq> [] then
             (case dropWhile is_digit rest of
                [] \<Rightarrow> None
              | m # mass \<Rightarrow>
                  (if m = CHR ''M'' \<and> mass \<noteq> [] \<and> list_all is_digit mass then Some mass
                   else None))
           else None))"

text \<open>
  The unit that \<open>ZILIEN_COLUMN_HEADER_RE = ^(.+?) \[(.+?)\]$\<close> gives: the string ends in
  \<open>]\<close>, there is no newline before that, and the first group, which is lazy and not
  empty, ends at the first \<open>" ["\<close> that starts at index 1 or later; the unit is what lies
  between that \<open>" ["\<close> and the final \<open>]\<close>, and it must not be empty.
\<close>

fun first_bracket_from :: "nat \<Rightarrow> string \<Rightarrow> nat option" where
  "first_bracket_from i (a # b # cs) =
     (if a = CHR '' '' \<and> b = CHR ''['' then Some i else first_bracket_from (Suc i) (b # cs))"
| "first_bracket_from i _ = None"

definition zilien_unit :: "string \<Rightarrow> string option" where
  "zilien_unit s =
     (let s1 = without_final_newline s
      in if s1 \<noteq> [] \<and> last s1 = CHR '']'' \<and> newline \<notin> set (butlast s1) then
           (let core = butlast s1
            in case first_bracket_from 1 (drop 1 core) of
                 None \<Rightarrow> None
               | Some i \<Rightarrow> (if i + 2 < length core then Some (drop (i + 2) core) else None))
         else None)"

text \<open>
  The unit that \<open>BIOLOGIC_COLUMN_HEADER_RE = ^(.+)/(.+)$\<close> gives: no newline before the
  end, and the first group, which is greedy, ends at the last \<open>/\<close> that has a character
  before it and a character after it; the unit is what follows that \<open>/\<close>.
\<close>

definition last_slash :: "string \<Rightarrow> nat option" where
  "last_slash core =
     (case filter (\<lambda>i. core ! i = CHR ''/'') (rev [1..<length core - 1]) of
        [] \<Rightarrow> None
      | i # _ \<Rightarrow> Some i)"

definition biologic_unit :: "string \<Rightarrow> string option" where
  "biologic_unit s =
     (let core = without_final_newline s
      in if newline \<in> set core then None
         else (case last_slash core of
                 None \<Rightarrow> None
               | Some i \<Rightarrow> Some (drop (i + 1) core)))"

definition BIOLOGIC_SERIES_NAME :: string where
  "BIOLOGIC_SERIES_NAME = ''EC-lab''"

text \<open>\<open>ZilienTSVReader._form_names_and_unit\<close>: the series name, the unit and the standard name.\<close>

definition form_names_and_unit :: "string \<Rightarrow> string \<Rightarrow> string \<times> string \<times> string option" where
  "form_names_and_unit series_header column_header =
     (if column_header \<in> {''Time [s]'', ''time/s''} then
        (let unit = ''s'';
             name = (if series_header = ''pot'' then ''Potential '' @ py_lower column_header
                     else if series_header = BIOLOGIC_SERIES_NAME
                       then ''Biologic '' @ py_lower column_header
                     else series_header @ '' '' @ py_lower column_header)
         in (name, unit, None))
      else
        (let unit = (case zilien_unit column_header of
                       Some u \<Rightarrow> u
                     | None \<Rightarrow> (case biologic_unit column_header of
                                  Some u \<Rightarrow> u
                                | None \<Rightarrow> ''''));
             setpoint_or_value =
               (py_endswith series_header ''setpoint'' \<or> py_endswith series_header ''value'');
             mass = to_mass series_header
         in if setpoint_or_value then (series_header @ '' ['' @ unit @ '']'', unit, None)
            else (case mass of
                    Some m \<Rightarrow> (''M'' @ m @ '' ['' @ unit @ '']'', unit, Some (''M'' @ m))
                  | None \<Rightarrow> (column_header, unit, None))))"

section \<open>Verified properties\<close>

subsection \<open>The row splitter of the embedded Biologic dataset\<close>

lemma concat_groupby: "concat (map snd (groupby eq xs)) = xs"
  by (induction eq xs rule: groupby.induct) simp_all

lemma splits_from_concat:
  "concat (map (\<lambda>(b, e). [b..<e]) (biologic_splits_from k gs)) = [k..<k + length (concat (map snd gs))]"
proof (induction gs arbitrary: k)
  case Nil show ?case by simp
next
  case (Cons g gs)
  obtain key grp where g: "g = (key, grp)" by (cases g)
  have "[k..<k + length grp] @ [k + length grp..<k + length grp + length (concat (map snd gs))]
        = [k..<k + (length grp + length (concat (map snd gs)))]"
    by (metis add.assoc le_add1 upt_add_eq_append)
  then show ?case using Cons.IH[of "k + length grp"] by (simp add: g)
qed

lemma splits_from_runs:
  "(b, e) \<in> set (biologic_splits_from k (groupby eq ys)) \<Longrightarrow>
     k \<le> b \<and> b < e \<and> e \<le> k + length ys
     \<and> (\<forall>i. b < i \<and> i < e \<longrightarrow> eq (ys ! (i - k)) (ys ! (b - k)))
     \<and> (e < k + length ys \<longrightarrow> \<not> eq (ys ! (e - k)) (ys ! (b - k)))"
proof (induction eq ys arbitrary: k rule: groupby.induct)
  case (1 eq) then show ?case by simp
next
  case (2 eq x xs)
  let ?P = "\<lambda>y. eq y x"
  let ?n = "length (takeWhile ?P xs)"
  have len: "length (dropWhile ?P xs) + ?n = length xs"
    by (metis add.commute length_append takeWhile_dropWhile_id)
  from "2.prems" consider (first) "b = k" "e = k + Suc ?n"
    | (rest) "(b, e) \<in> set (biologic_splits_from (k + Suc ?n) (groupby eq (dropWhile ?P xs)))"
    by auto
  then show ?case
  proof cases
    case first
    have le: "?n \<le> length xs" by (simp add: length_takeWhile_le)
    have a: "\<forall>i. b < i \<and> i < e \<longrightarrow> eq ((x # xs) ! (i - k)) ((x # xs) ! (b - k))"
    proof (intro allI impI)
      fix i assume i: "b < i \<and> i < e"
      then obtain j where j: "i - k = Suc j" "j < ?n" using first by (cases "i - k") auto
      have "takeWhile ?P xs ! j \<in> set (takeWhile ?P xs)" using j by simp
      then have "?P (takeWhile ?P xs ! j)" by (rule set_takeWhileD[THEN conjunct2])
      then show "eq ((x # xs) ! (i - k)) ((x # xs) ! (b - k))"
        using j first by (simp add: takeWhile_nth)
    qed
    have c: "e < k + length (x # xs) \<longrightarrow> \<not> eq ((x # xs) ! (e - k)) ((x # xs) ! (b - k))"
      using first nth_length_takeWhile[of ?P xs] by auto
    show ?thesis using first le a c by simp
  next
    case rest
    note IH = "2.IH"[OF rest]
    let ?k' = "k + Suc ?n"
    have idx: "\<And>i. ?k' \<le> i \<Longrightarrow> i < ?k' + length (dropWhile ?P xs) \<Longrightarrow>
                 dropWhile ?P xs ! (i - ?k') = (x # xs) ! (i - k)"
    proof -
      fix i assume h: "?k' \<le> i" "i < ?k' + length (dropWhile ?P xs)"
      then have "dropWhile ?P xs ! (i - ?k') = xs ! (i - ?k' + ?n)" by (simp add: dropWhile_nth)
      moreover have "i - k = Suc (i - ?k' + ?n)" using h by simp
      ultimately show "dropWhile ?P xs ! (i - ?k') = (x # xs) ! (i - k)" by simp
    qed
    have b: "?k' \<le> b" "b < e" "e \<le> ?k' + length (dropWhile ?P xs)" using IH by auto
    have a: "\<forall>i. b < i \<and> i < e \<longrightarrow> eq ((x # xs) ! (i - k)) ((x # xs) ! (b - k))"
    proof (intro allI impI)
      fix i assume i: "b < i \<and> i < e"
      then have "eq (dropWhile ?P xs ! (i - ?k')) (dropWhile ?P xs ! (b - ?k'))" using IH by blast
      then show "eq ((x # xs) ! (i - k)) ((x # xs) ! (b - k))"
        using idx[of i] idx[of b] b i by simp
    qed
    have c: "e < k + length (x # xs) \<longrightarrow> \<not> eq ((x # xs) ! (e - k)) ((x # xs) ! (b - k))"
    proof
      assume e: "e < k + length (x # xs)"
      then have e': "e < ?k' + length (dropWhile ?P xs)" using len by simp
      then have "\<not> eq (dropWhile ?P xs ! (e - ?k')) (dropWhile ?P xs ! (b - ?k'))" using IH by blast
      then show "\<not> eq ((x # xs) ! (e - k)) ((x # xs) ! (b - k))"
        using idx[of e] idx[of b] b e' by simp
    qed
    show ?thesis using b a c len by simp
  qed
qed

lemma float64_eq_trans: "float64_eq a b \<Longrightarrow> float64_eq b c \<Longrightarrow> float64_eq a c"
  by (cases a; cases b; cases c) simp_all

lemma splits_from_left:
  "(b, e) \<in> set (biologic_splits_from k (groupby eq ys)) \<Longrightarrow> k < b \<Longrightarrow>
     (\<forall>a b c. eq a b \<longrightarrow> eq b c \<longrightarrow> eq a c) \<Longrightarrow>
     \<not> eq (ys ! (b - k)) (ys ! (b - k - 1))"
proof (induction eq ys arbitrary: k rule: groupby.induct)
  case (1 eq) then show ?case by simp
next
  case (2 eq x xs)
  let ?P = "\<lambda>y. eq y x"
  let ?n = "length (takeWhile ?P xs)"
  let ?k' = "k + Suc ?n"
  have len: "length (dropWhile ?P xs) + ?n = length xs"
    by (metis add.commute length_append takeWhile_dropWhile_id)
  from "2.prems" have trans: "\<And>a b c. eq a b \<Longrightarrow> eq b c \<Longrightarrow> eq a c" by blast
  from "2.prems" have rest: "(b, e) \<in> set (biologic_splits_from ?k' (groupby eq (dropWhile ?P xs)))"
    by auto
  from splits_from_runs[OF rest] have bk: "?k' \<le> b" "b < ?k' + length (dropWhile ?P xs)" by auto
  show ?case
  proof (cases "b = ?k'")
    case True
    have nlt: "?n < length xs" using bk len by simp
    then have notP: "\<not> eq (xs ! ?n) x" by (rule nth_length_takeWhile)
    have "\<not> eq (xs ! ?n) ((x # xs) ! ?n)"
    proof (cases ?n)
      case 0 then show ?thesis using notP by simp
    next
      case (Suc m)
      then have "takeWhile ?P xs ! m \<in> set (takeWhile ?P xs)" by simp
      then have "eq (takeWhile ?P xs ! m) x" by (rule set_takeWhileD[THEN conjunct2])
      then have "eq (xs ! m) x" using Suc by (simp add: takeWhile_nth)
      have "\<not> eq (xs ! ?n) (xs ! m)"
      proof
        assume "eq (xs ! ?n) (xs ! m)"
        from trans[OF this \<open>eq (xs ! m) x\<close>] notP show False by simp
      qed
      then show ?thesis using Suc by simp
    qed
    then show ?thesis using True by simp
  next
    case False
    then have lt: "?k' < b" using bk by simp
    have "\<not> eq (dropWhile ?P xs ! (b - ?k')) (dropWhile ?P xs ! (b - ?k' - 1))"
      using "2.IH"[OF rest lt] "2.prems"(3) by blast
    moreover have "dropWhile ?P xs ! (b - ?k') = (x # xs) ! (b - k)"
    proof -
      have "dropWhile ?P xs ! (b - ?k') = xs ! (b - ?k' + ?n)" using bk by (simp add: dropWhile_nth)
      moreover have "b - k = Suc (b - ?k' + ?n)" using bk by simp
      ultimately show ?thesis by simp
    qed
    moreover have "dropWhile ?P xs ! (b - ?k' - 1) = (x # xs) ! (b - k - 1)"
    proof -
      have "dropWhile ?P xs ! (b - ?k' - 1) = xs ! (b - ?k' - 1 + ?n)" using bk by (simp add: dropWhile_nth)
      moreover have "b - k - 1 = Suc (b - ?k' - 1 + ?n)" using bk lt by simp
      ultimately show ?thesis by simp
    qed
    ultimately show ?thesis by simp
  qed
qed

text \<open>
  C1. For every vector of composite run keys, \<open>_get_biologic_splits\<close> partitions the row
  indices into maximal contiguous runs of constant key, in row order: the pairs
  \<open>(begin, end)\<close> laid end to end are exactly \<open>0, \<dots>, length ks - 1\<close>; every run is
  non-empty; every row of a run after its first compares equal to the first; the row
  after a run and the row before a run do not compare equal to the run's rows next to
  them, so that a key which comes back after a different key starts a later run of its
  own. For the keys \<open>[5001, 5001, 5001, 7002, 7002, 5001]\<close> the result is
  \<open>[(0, 3), (3, 5), (5, 6)]\<close>.
\<close>

theorem biologic_splits_maximal_runs:
  "concat (map (\<lambda>(b, e). [b..<e]) (get_biologic_splits ks)) = [0..<length ks]
   \<and> (\<forall>(b, e) \<in> set (get_biologic_splits ks).
         b < e \<and> e \<le> length ks
         \<and> (\<forall>i. b < i \<and> i < e \<longrightarrow> float64_eq (ks ! i) (ks ! b))
         \<and> (e < length ks \<longrightarrow> \<not> float64_eq (ks ! e) (ks ! b))
         \<and> (0 < b \<longrightarrow> \<not> float64_eq (ks ! b) (ks ! (b - 1))))
   \<and> get_biologic_splits (map Num [5001, 5001, 5001, 7002, 7002, 5001])
       = [(0, 3), (3, 5), (5, 6)]"
proof (intro conjI)
  show "concat (map (\<lambda>(b, e). [b..<e]) (get_biologic_splits ks)) = [0..<length ks]"
    unfolding get_biologic_splits_def by (simp add: splits_from_concat concat_groupby)
  show "\<forall>(b, e) \<in> set (get_biologic_splits ks).
         b < e \<and> e \<le> length ks
         \<and> (\<forall>i. b < i \<and> i < e \<longrightarrow> float64_eq (ks ! i) (ks ! b))
         \<and> (e < length ks \<longrightarrow> \<not> float64_eq (ks ! e) (ks ! b))
         \<and> (0 < b \<longrightarrow> \<not> float64_eq (ks ! b) (ks ! (b - 1)))"
  proof (clarify)
    fix b e assume m: "(b, e) \<in> set (get_biologic_splits ks)"
    then have m': "(b, e) \<in> set (biologic_splits_from 0 (groupby float64_eq ks))"
      by (simp add: get_biologic_splits_def)
    have tr: "\<forall>a b c. float64_eq a b \<longrightarrow> float64_eq b c \<longrightarrow> float64_eq a c"
      using float64_eq_trans by blast
    have left: "0 < b \<longrightarrow> \<not> float64_eq (ks ! b) (ks ! (b - 1))"
      using splits_from_left[OF m' _ tr] by simp
    from splits_from_runs[OF m'] left
    show "b < e \<and> e \<le> length ks
         \<and> (\<forall>i. b < i \<and> i < e \<longrightarrow> float64_eq (ks ! i) (ks ! b))
         \<and> (e < length ks \<longrightarrow> \<not> float64_eq (ks ! e) (ks ! b))
         \<and> (0 < b \<longrightarrow> \<not> float64_eq (ks ! b) (ks ! (b - 1)))"
      by simp
  qed
  show "get_biologic_splits (map Num [5001, 5001, 5001, 7002, 7002, 5001])
       = [(0, 3), (3, 5), (5, 6)]"
    by (simp add: get_biologic_splits_def)
qed

text \<open>
  The run \<open>(2, 3)\<close> of the keys \<open>[1, 1, 2, NaN]\<close>: the theorem above applied to a vector
  that holds a missing value.
\<close>

theorem biologic_splits_maximal_runs_witness:
  "(2, 3) \<in> set (get_biologic_splits [Num 1, Num 1, Num 2, NaN])
   \<and> \<not> float64_eq ([Num 1, Num 1, Num 2, NaN] ! 3) ([Num 1, Num 1, Num 2, NaN] ! 2)
   \<and> \<not> float64_eq ([Num 1, Num 1, Num 2, NaN] ! 2) ([Num 1, Num 1, Num 2, NaN] ! (2 - 1))"
  using biologic_splits_maximal_runs[of "[Num 1, Num 1, Num 2, NaN]"]
  by (simp add: get_biologic_splits_def)

subsection \<open>The column ranges of the series headers\<close>

lemma enumerate_list_conv: "enumerate_list xs = map (\<lambda>i. (i, xs ! i)) [0..<length xs]"
proof -
  have "zip [0..<length xs] xs = zip [0..<length xs] (map (\<lambda>i. xs ! i) [0..<length xs])"
    by (simp only: map_nth)
  also have "\<dots> = map (\<lambda>i. (i, xs ! i)) [0..<length xs]"
    by (simp add: zip_map2 zip_same_conv_map)
  finally show ?thesis by (simp add: enumerate_list_def)
qed

lemma nonempty_indices:
  "map fst (filter (\<lambda>(index, h). Q h) (enumerate_list hs)) = filter (\<lambda>i. Q (hs ! i)) [0..<length hs]"
  by (simp add: enumerate_list_conv filter_map comp_def)

lemma nonempty_names:
  "map snd (filter (\<lambda>(index, h). Q h) (enumerate_list hs)) = filter Q hs"
proof -
  have "map snd (filter (\<lambda>(index, h). Q h) (enumerate_list hs))
        = map (\<lambda>i. hs ! i) (filter (\<lambda>i. Q (hs ! i)) [0..<length hs])"
    by (simp add: enumerate_list_conv filter_map comp_def)
  also have "\<dots> = filter Q (map (\<lambda>i. hs ! i) [0..<length hs])"
    by (simp add: filter_map comp_def)
  finally show ?thesis by (simp only: map_nth)
qed

lemma zip_longest_fst: "map fst (zip_longest xs (drop (Suc 0) xs)) = map Some xs"
proof (induction xs)
  case Nil show ?case by simp
next
  case (Cons a xs) then show ?case by (cases xs) simp_all
qed

lemma zip_longest_snd:
  "map snd (zip_longest xs (drop (Suc 0) xs))
     = map Some (drop (Suc 0) xs) @ (if xs = [] then [] else [None])"
proof (induction xs)
  case Nil show ?case by simp
next
  case (Cons a xs) then show ?case by (cases xs) simp_all
qed

lemma selected_Some_Some: "b \<le> e \<Longrightarrow> e \<le> L \<Longrightarrow> selected L (Some b, Some e) = [b..<e]"
  by (simp add: selected_def py_slice_def slice_bound_def min_def take_upt drop_upt)

lemma selected_Some_None: "b \<le> L \<Longrightarrow> selected L (Some b, None) = [b..<L]"
  by (simp add: selected_def py_slice_def slice_bound_def min_def drop_upt)

lemma cover_from_first:
  "sorted_wrt (<) idx \<Longrightarrow> \<forall>i\<in>set idx. i < L \<Longrightarrow> idx \<noteq> [] \<Longrightarrow>
     concat (map (selected L) (zip_longest idx (drop (Suc 0) idx))) = [hd idx..<L]"
proof (induction idx)
  case Nil then show ?case by simp
next
  case (Cons a idx)
  show ?case
  proof (cases idx)
    case Nil
    then show ?thesis using Cons.prems by (simp add: selected_Some_None)
  next
    case (Cons b r)
    have ab: "a < b" "b < L" using Cons.prems Cons by auto
    have IH: "concat (map (selected L) (zip_longest idx (drop (Suc 0) idx))) = [b..<L]"
      using Cons.IH Cons.prems Cons by simp
    have "[a..<b] @ [b..<L] = [a..<L]" using upt_add_eq_append[of a b "L - b"] ab by simp
    then show ?thesis using IH Cons ab by (simp add: selected_Some_Some)
  qed
qed

text \<open>
  C2 as stated fails where the first header cell is empty: for the header row
  \<open>['', 'a']\<close> the only range is \<open>(1, None)\<close>, and column 0 is in no range.
\<close>

theorem series_splits_leading_empty_counterexample:
  "concat (map (selected 2) (fst (get_series_splits ['''', ''a'']))) \<noteq> [0..<2]"
  by code_simp

text \<open>
  C2, amended. For every series-header row of length \<open>L\<close>, \<open>_get_series_splits\<close> returns
  one pair per non-empty header cell, in order: its begin is the index of that cell, its
  end is the index of the next non-empty cell, and the end of the last pair is \<open>None\<close>,
  which the slice \<open>[begin:end]\<close> reads as \<open>L\<close>. The columns that the slices select, laid
  end to end, are exactly the columns from the first non-empty header cell to \<open>L\<close>, each
  once; they are all of \<open>0, \<dots>, L - 1\<close> when the first header cell is non-empty. The
  non-empty headers are returned in order, and a row with no non-empty cell gives no
  range.
\<close>

theorem series_splits_cover_from_first_header:
  "let L = length hs;
       idx = filter (\<lambda>i. hs ! i \<noteq> '''') [0..<L];
       splits = fst (get_series_splits hs)
   in map fst splits = map Some idx
    \<and> map snd splits = map Some (drop 1 idx) @ (if idx = [] then [] else [None])
    \<and> snd (get_series_splits hs) = filter (\<lambda>h. h \<noteq> '''') hs
    \<and> concat (map (selected L) splits) = (if idx = [] then [] else [hd idx..<L])
    \<and> (hs \<noteq> [] \<and> hd hs \<noteq> '''' \<longrightarrow> concat (map (selected L) splits) = [0..<L])
    \<and> ((\<forall>h \<in> set hs. h = '''') \<longrightarrow> splits = [])"
proof -
  define L where "L = length hs"
  define idx where "idx = filter (\<lambda>i. hs ! i \<noteq> '''') [0..<L]"
  define splits where "splits = fst (get_series_splits hs)"
  have sp: "splits = zip_longest idx (drop (Suc 0) idx)"
    by (simp add: splits_def get_series_splits_def Let_def nonempty_indices idx_def L_def)
  have 1: "map fst splits = map Some idx" by (simp only: sp zip_longest_fst)
  have 2: "map snd splits = map Some (drop 1 idx) @ (if idx = [] then [] else [None])"
    using zip_longest_snd[of idx] by (simp add: sp)
  have 3: "snd (get_series_splits hs) = filter (\<lambda>h. h \<noteq> '''') hs"
    by (simp add: get_series_splits_def Let_def nonempty_names)
  have sorted: "sorted_wrt (<) idx" by (simp add: idx_def sorted_wrt_filter)
  have bound: "\<forall>i\<in>set idx. i < L" by (simp add: idx_def)
  have 4: "concat (map (selected L) splits) = (if idx = [] then [] else [hd idx..<L])"
    using cover_from_first[OF sorted bound] by (simp add: sp)
  have 5: "hs \<noteq> [] \<and> hd hs \<noteq> '''' \<longrightarrow> concat (map (selected L) splits) = [0..<L]"
  proof
    assume h: "hs \<noteq> [] \<and> hd hs \<noteq> ''''"
    then have "0 < L" by (simp add: L_def)
    then have "[0..<L] = 0 # [Suc 0..<L]" by (simp add: upt_conv_Cons)
    moreover have "hs ! 0 \<noteq> ''''" using h by (cases hs) simp_all
    ultimately have "idx \<noteq> [] \<and> hd idx = 0" by (simp add: idx_def)
    then show "concat (map (selected L) splits) = [0..<L]" using 4 by simp
  qed
  have 6: "(\<forall>h \<in> set hs. h = '''') \<longrightarrow> splits = []"
  proof
    assume "\<forall>h \<in> set hs. h = ''''"
    then have "idx = []" by (simp add: idx_def L_def filter_empty_conv)
    then show "splits = []" by (simp add: sp)
  qed
  show ?thesis
    unfolding Let_def L_def[symmetric] idx_def[symmetric] splits_def[symmetric]
    using 1 2 3 4 5 6 by blast
qed

text \<open>A header row of a file with a potential block and one mass channel.\<close>

theorem series_splits_cover_from_first_header_witness:
  "[''pot'', '''', ''C0M2'', ''''] \<noteq> [] \<and> hd [''pot'', '''', ''C0M2'', ''''] \<noteq> ''''
   \<and> fst (get_series_splits [''pot'', '''', ''C0M2'', '''']) = [(Some 0, Some 2), (Some 2, None)]
   \<and> concat (map (selected (length [''pot'', '''', ''C0M2'', '''']))
         (fst (get_series_splits [''pot'', '''', ''C0M2'', '''']))) = [0..<length [''pot'', '''', ''C0M2'', '''']]"
proof -
  have e: "fst (get_series_splits [''pot'', '''', ''C0M2'', '''']) = [(Some 0, Some 2), (Some 2, None)]"
    by code_simp
  have c: "concat (map (selected (length [''pot'', '''', ''C0M2'', '''']))
         (fst (get_series_splits [''pot'', '''', ''C0M2'', '''']))) = [0..<length [''pot'', '''', ''C0M2'', '''']]"
    using series_splits_cover_from_first_header[of "[''pot'', '''', ''C0M2'', '''']"]
    unfolding Let_def by simp
  show ?thesis using e c by simp
qed

subsection \<open>Spectrum: construction paths, views and data objects\<close>

lemma deref_alloc_new: "deref (snd (alloc obj st)) (fst (alloc obj st)) = Inr obj"
  by (simp add: deref_def alloc_def)

lemma deref_append_old: "a < length st \<Longrightarrow> deref (st @ objs) a = Inr (st ! a)"
  by (simp add: deref_def nth_append)

lemma deref_append_new: "deref (st @ [obj]) (length st) = Inr obj"
  by (simp add: deref_def)

lemma from_data_result:
  "from_data st xd yd ts xn yn xu yu kw =
     Inr (Spectrum_init (case kw_name kw of Some n \<Rightarrow> n | None \<Rightarrow> yn) (kw_technique kw)
            (kw_metadata kw) (kw_sample_name kw) (kw_reader kw) (Some (length st + 3))
            (kw_field_id kw),
          st @ [DataSeries xn xu xd, DataSeries yn yu yd,
                TimeSeries ''spectrum time / [s]'' (Some ''s'') (Array [Scalar (Num 0)]) ts,
                Field yn yu (Array [yd]) [length st, length st + 2]])"
  by (simp add: from_data_def from_series_def from_field_def alloc_def deref_def bind_err_def
      nth_append Let_def eval_nat_numeral split: option.split)

text \<open>
  C6 on the code. Take the x data \<open>[2, 28]\<close>, the y data \<open>[5, 7]\<close> and the time stamp 100.
  The field built by hand has the x series and a one-sample time series as its axes and
  its data in the layout that the shape invariant and the docstring of the class ask
  for, \<open>(N, 1)\<close>, here \<open>[[5], [7]]\<close>: the invariant holds, \<open>from_field\<close> builds the
  spectrum, and its \<open>x\<close> and \<open>tstamp\<close> are the x data and the time stamp, but its \<open>y\<close>,
  which is \<open>field.data[0]\<close>, is \<open>[5]\<close>. The spectrum that \<open>from_data\<close> builds from the
  same x, y and time stamp has \<open>y = [5, 7]\<close>. The two paths do not give the same \<open>y\<close>.
\<close>

theorem spectrum_y_of_column_field:
  "field_shape_ok
     [DataSeries ''mass'' (Some ''m/z'') (Array [Scalar (Num 2), Scalar (Num 28)]),
      TimeSeries ''t'' (Some ''s'') (Array [Scalar (Num 0)]) (Some (Num 100)),
      Field ''signal'' (Some ''A'') (Array [Array [Scalar (Num 5)], Array [Scalar (Num 7)]])
        [0, 1]]
     (Field ''signal'' (Some ''A'') (Array [Array [Scalar (Num 5)], Array [Scalar (Num 7)]])
        [0, 1])
   \<and> from_field
       [DataSeries ''mass'' (Some ''m/z'') (Array [Scalar (Num 2), Scalar (Num 28)]),
        TimeSeries ''t'' (Some ''s'') (Array [Scalar (Num 0)]) (Some (Num 100)),
        Field ''signal'' (Some ''A'') (Array [Array [Scalar (Num 5)], Array [Scalar (Num 7)]])
          [0, 1]] 2
       \<lparr>kw_name = None, kw_technique = None, kw_metadata = None, kw_sample_name = None,
         kw_reader = None, kw_field_id = None\<rparr>
     = Inr (Spectrum_init ''signal'' None None None None (Some 2) None)
   \<and> spectrum_x (\<lambda>i. 0)
       [DataSeries ''mass'' (Some ''m/z'') (Array [Scalar (Num 2), Scalar (Num 28)]),
        TimeSeries ''t'' (Some ''s'') (Array [Scalar (Num 0)]) (Some (Num 100)),
        Field ''signal'' (Some ''A'') (Array [Array [Scalar (Num 5)], Array [Scalar (Num 7)]])
          [0, 1]]
       (Spectrum_init ''signal'' None None None None (Some 2) None)
     = Inr (Array [Scalar (Num 2), Scalar (Num 28)])
   \<and> spectrum_tstamp (\<lambda>i. 0)
       [DataSeries ''mass'' (Some ''m/z'') (Array [Scalar (Num 2), Scalar (Num 28)]),
        TimeSeries ''t'' (Some ''s'') (Array [Scalar (Num 0)]) (Some (Num 100)),
        Field ''signal'' (Some ''A'') (Array [Array [Scalar (Num 5)], Array [Scalar (Num 7)]])
          [0, 1]]
       (Spectrum_init ''signal'' None None None None (Some 2) None)
     = Inr (Scalar (Num 100))
   \<and> spectrum_y (\<lambda>i. 0)
       [DataSeries ''mass'' (Some ''m/z'') (Array [Scalar (Num 2), Scalar (Num 28)]),
        TimeSeries ''t'' (Some ''s'') (Array [Scalar (Num 0)]) (Some (Num 100)),
        Field ''signal'' (Some ''A'') (Array [Array [Scalar (Num 5)], Array [Scalar (Num 7)]])
          [0, 1]]
       (Spectrum_init ''signal'' None None None None (Some 2) None)
     = Inr (Array [Scalar (Num 5)])
   \<and> from_data [] (Array [Scalar (Num 2), Scalar (Num 28)])
       (Array [Scalar (Num 5), Scalar (Num 7)]) (Some (Num 100)) ''mass'' ''signal''
       (Some ''m/z'') (Some ''A'')
       \<lparr>kw_name = None, kw_technique = None, kw_metadata = None, kw_sample_name = None,
         kw_reader = None, kw_field_id = None\<rparr>
     = Inr (Spectrum_init ''signal'' None None None None (Some 3) None,
            [DataSeries ''mass'' (Some ''m/z'') (Array [Scalar (Num 2), Scalar (Num 28)]),
             DataSeries ''signal'' (Some ''A'') (Array [Scalar (Num 5), Scalar (Num 7)]),
             TimeSeries ''spectrum time / [s]'' (Some ''s'') (Array [Scalar (Num 0)])
               (Some (Num 100)),
             Field ''signal'' (Some ''A'') (Array [Array [Scalar (Num 5), Scalar (Num 7)]])
               [0, 2]])
   \<and> spectrum_x (\<lambda>i. 0)
       [DataSeries ''mass'' (Some ''m/z'') (Array [Scalar (Num 2), Scalar (Num 28)]),
        DataSeries ''signal'' (Some ''A'') (Array [Scalar (Num 5), Scalar (Num 7)]),
        TimeSeries ''spectrum time / [s]'' (Some ''s'') (Array [Scalar (Num 0)])
          (Some (Num 100)),
        Field ''signal'' (Some ''A'') (Array [Array [Scalar (Num 5), Scalar (Num 7)]]) [0, 2]]
       (Spectrum_init ''signal'' None None None None (Some 3) None)
     = Inr (Array [Scalar (Num 2), Scalar (Num 28)])
   \<and> spectrum_tstamp (\<lambda>i. 0)
       [DataSeries ''mass'' (Some ''m/z'') (Array [Scalar (Num 2), Scalar (Num 28)]),
        DataSeries ''signal'' (Some ''A'') (Array [Scalar (Num 5), Scalar (Num 7)]),
        TimeSeries ''spectrum time / [s]'' (Some ''s'') (Array [Scalar (Num 0)])
          (Some (Num 100)),
        Field ''signal'' (Some ''A'') (Array [Array [Scalar (Num 5), Scalar (Num 7)]]) [0, 2]]
       (Spectrum_init ''signal'' None None None None (Some 3) None)
     = Inr (Scalar (Num 100))
   \<and> spectrum_y (\<lambda>i. 0)
       [DataSeries ''mass'' (Some ''m/z'') (Array [Scalar (Num 2), Scalar (Num 28)]),
        DataSeries ''signal'' (Some ''A'') (Array [Scalar (Num 5), Scalar (Num 7)]),
        TimeSeries ''spectrum time / [s]'' (Some ''s'') (Array [Scalar (Num 0)])
          (Some (Num 100)),
        Field ''signal'' (Some ''A'') (Array [Array [Scalar (Num 5), Scalar (Num 7)]]) [0, 2]]
       (Spectrum_init ''signal'' None None None None (Some 3) None)
     = Inr (Array [Scalar (Num 5), Scalar (Num 7)])"
  by (simp add: field_shape_ok_def axes_lengths_def from_field_def from_data_result
      spectrum_x_def spectrum_y_def spectrum_tstamp_def spectrum_xseries_def
      spectrum_tseries_def spectrum_field_def Spectrum_init_def deref_def bind_err_def
      list_index_def eval_nat_numeral)

text \<open>
  C7 on the code. For x data of length \<open>N\<close> and y data \<open>ys\<close>, the field that \<open>from_data\<close>
  builds has data of shape \<open>1 # shape ys\<close>, that is \<open>(1, N)\<close> for a vector of length
  \<open>N\<close>, while its axes have the lengths \<open>N\<close> and 1. For x = [1, 2] and y = [3, 4] the
  shape is \<open>(1, 2)\<close>, the axes have lengths 2 and 1, and the shape invariant of a field
  does not hold.
\<close>

theorem from_data_field_shape:
  "(\<exists>sp st'. from_data st (Array xs) (Array ys) ts xn yn xu yu kw = Inr (sp, st')
        \<and> sp_field sp = Loaded (length st + 3)
        \<and> shape (obj_data (st' ! (length st + 3))) = 1 # shape (Array ys)
        \<and> axes_lengths st' (st' ! (length st + 3)) = [Inr (length xs), Inr 1])
   \<and> (\<exists>sp st'. from_data [] (Array [Scalar (Num 1), Scalar (Num 2)])
                  (Array [Scalar (Num 3), Scalar (Num 4)]) (Some (Num 0)) ''x'' ''y'' None None
                  \<lparr>kw_name = None, kw_technique = None, kw_metadata = None,
                    kw_sample_name = None, kw_reader = None, kw_field_id = None\<rparr> = Inr (sp, st')
        \<and> shape (obj_data (st' ! 3)) = [1, 2]
        \<and> axes_lengths st' (st' ! 3) = [Inr 2, Inr 1]
        \<and> \<not> field_shape_ok st' (st' ! 3))"
proof
  show "\<exists>sp st'. from_data st (Array xs) (Array ys) ts xn yn xu yu kw = Inr (sp, st')
        \<and> sp_field sp = Loaded (length st + 3)
        \<and> shape (obj_data (st' ! (length st + 3))) = 1 # shape (Array ys)
        \<and> axes_lengths st' (st' ! (length st + 3)) = [Inr (length xs), Inr 1]"
    by (simp add: from_data_result Spectrum_init_def nth_append axes_lengths_def deref_def
        bind_err_def)
  show "\<exists>sp st'. from_data [] (Array [Scalar (Num 1), Scalar (Num 2)])
                  (Array [Scalar (Num 3), Scalar (Num 4)]) (Some (Num 0)) ''x'' ''y'' None None
                  \<lparr>kw_name = None, kw_technique = None, kw_metadata = None,
                    kw_sample_name = None, kw_reader = None, kw_field_id = None\<rparr> = Inr (sp, st')
        \<and> shape (obj_data (st' ! 3)) = [1, 2]
        \<and> axes_lengths st' (st' ! 3) = [Inr 2, Inr 1]
        \<and> \<not> field_shape_ok st' (st' ! 3)"
    by (simp add: from_data_result Spectrum_init_def axes_lengths_def field_shape_ok_def
        deref_def bind_err_def eval_nat_numeral)
qed


subsection \<open>Cycle segmentation\<close>

lemma slice_bound_le: "slice_bound len i \<le> len"
  by (simp add: slice_bound_def nat_le_iff)

lemma slice_assign_length: "length (slice_assign_from n c xs) = length xs"
  using slice_bound_le[of "length xs" n] by (simp add: slice_assign_from_def Let_def)

lemma slice_assign_set:
  "x \<in> set (slice_assign_from n c xs) \<Longrightarrow> x \<in> set xs \<or> x = c"
  by (auto simp: slice_assign_from_def Let_def dest: in_set_takeD)

lemma slice_assign_sorted:
  fixes c :: real
  assumes "sorted xs" "\<forall>x\<in>set xs. x \<le> c"
  shows "sorted (slice_assign_from n c xs)"
proof -
  have "sorted (take (slice_bound (length xs) n) xs)" using assms(1) by (rule sorted_wrt_take)
  moreover have "\<forall>x\<in>set (take (slice_bound (length xs) n) xs). x \<le> c"
    using assms(2) by (auto dest: in_set_takeD)
  ultimately show ?thesis
    by (auto simp: slice_assign_from_def Let_def sorted_append)
qed

lemma slice_assign_first:
  "1 \<le> n \<Longrightarrow> xs \<noteq> [] \<Longrightarrow> slice_assign_from n c xs ! 0 = xs ! 0"
proof -
  assume n: "1 \<le> n" and xs: "xs \<noteq> []"
  have "0 < slice_bound (length xs) n" using n xs by (simp add: slice_bound_def)
  then show ?thesis using xs by (simp add: slice_assign_from_def Let_def nth_append)
qed

lemma int64_id: "fits_int64 i \<Longrightarrow> int64 i = i"
  by (simp add: int64_def fits_int64_def)

lemma argmax_less: "True \<in> set msk \<Longrightarrow> argmax msk < length msk"
proof -
  assume t: "True \<in> set msk"
  have "takeWhile (\<lambda>b. \<not> b) msk \<noteq> msk"
    using t by (auto simp: takeWhile_eq_all_conv)
  moreover have "length (takeWhile (\<lambda>b. \<not> b) msk) \<le> length msk"
    by (rule length_takeWhile_le)
  ultimately show ?thesis
    unfolding argmax_def
    by (metis le_neq_implies_less takeWhile_eq_take take_all_iff order_refl)
qed

lemma length_slice_from: "0 \<le> n \<Longrightarrow> length (py_slice (Some n) None v) = length v - nat n"
  by (simp add: py_slice_def slice_bound_def Let_def)

lemma index_of_true_in_range:
  assumes "0 \<le> n" and "True \<in> set (map P (py_slice (Some n) None v))"
  shows "n + int (argmax (map P (py_slice (Some n) None v))) < int (length v)"
proof -
  have "argmax (map P (py_slice (Some n) None v)) < length v - nat n"
    using argmax_less[OF assms(2)] length_slice_from[OF assms(1), of v] by simp
  then show ?thesis using assms(1) by linarith
qed

lemma redefine_cycle_loop_returns:
  fixes cv :: "real list"
  shows "1 \<le> Np \<Longrightarrow> int (length v) + Np \<le> 2 ^ 63 \<Longrightarrow> 0 \<le> n \<Longrightarrow> sorted cv \<Longrightarrow>
     (\<forall>x\<in>set cv. x \<in> \<int> \<and> x \<le> of_int c) \<Longrightarrow> (cv \<noteq> [] \<longrightarrow> cv ! 0 = 0) \<Longrightarrow>
     \<exists>r. redefine_cycle_loop v sp Np N n c cv = Some (Inr r) \<and> length r = length cv \<and> sorted r
          \<and> (\<forall>x\<in>set r. x \<in> \<int>) \<and> (r \<noteq> [] \<longrightarrow> r ! 0 = 0)"
proof (induction "nat (N - n)" arbitrary: n c cv rule: less_induct)
  case less
  define behind where "behind = map (\<lambda>x. float64_lt x sp) (py_slice (Some n) None v)"
  define n1 where "n1 = int64 (n + int64 (int (argmax behind) + Np))"
  define front where "front = map (\<lambda>x. float64_gt x sp) (py_slice (Some n1) None v)"
  define n2 where "n2 = int64 (n1 + int (argmax front))"
  define cv' where "cv' = slice_assign_from n2 (of_int (c + 1)) cv"
  have stop: "\<exists>r. Some (Inr cv) = Some (Inr r) \<and> length r = length cv \<and> sorted r
          \<and> (\<forall>x\<in>set r. x \<in> \<int>) \<and> (r \<noteq> [] \<longrightarrow> r ! 0 = 0)"
    using less.prems by simp
  have unfold: "redefine_cycle_loop v sp Np N n c cv =
      (if n < N then
         (if True \<notin> set behind then Some (Inr cv)
          else if \<not> fits_int64 Np
            then Some (Inl (OverflowError, ''Python integer out of bounds for int64''))
          else if True \<notin> set front then Some (Inr cv)
          else redefine_cycle_loop v sp Np N (int64 (n2 + Np)) (c + 1) cv')
       else Some (Inr cv))"
    unfolding behind_def n1_def front_def n2_def cv'_def
    by (subst redefine_cycle_loop.simps) (simp only: Let_def)
  have in_range: "n + int (argmax behind) < int (length v)" if "True \<in> set behind"
    using index_of_true_in_range[OF less.prems(3), of "\<lambda>x. float64_lt x sp" v] that
    by (simp only: behind_def)
  have np: "fits_int64 Np" if "True \<in> set behind"
    using in_range[OF that] less.prems(1,2,3) by (simp add: fits_int64_def)
  show ?case
  proof (cases "n < N \<and> True \<in> set behind \<and> True \<in> set front")
    case False
    then have "redefine_cycle_loop v sp Np N n c cv = Some (Inr cv)"
      using np by (simp only: unfold split: if_splits) blast
    then show ?thesis using stop by (simp only:)
  next
    case True
    have b: "n + int (argmax behind) < int (length v)" using in_range True by blast
    have "fits_int64 (int (argmax behind) + Np)"
      using b less.prems(1,2,3) by (simp add: fits_int64_def)
    then have i1: "int64 (int (argmax behind) + Np) = int (argmax behind) + Np"
      by (rule int64_id)
    have "fits_int64 (n + (int (argmax behind) + Np))"
      using b less.prems(1,2,3) by (simp add: fits_int64_def)
    then have "int64 (n + (int (argmax behind) + Np)) = n + (int (argmax behind) + Np)"
      by (rule int64_id)
    then have n1: "n1 = n + int (argmax behind) + Np" by (simp only: n1_def i1 add.assoc)
    have n1pos: "0 \<le> n1" using less.prems(1,3) n1 by linarith
    have f: "n1 + int (argmax front) < int (length v)"
      using index_of_true_in_range[OF n1pos, of "\<lambda>x. float64_gt x sp" v] True
      by (simp only: front_def)
    have "fits_int64 (n1 + int (argmax front))"
      using f n1pos less.prems(1,2) by (simp add: fits_int64_def)
    then have n2: "n2 = n1 + int (argmax front)" unfolding n2_def by (rule int64_id)
    have n2pos: "1 \<le> n2" using less.prems(1,3) n1 n2 by linarith
    have "fits_int64 (n2 + Np)"
      using f n2 n2pos less.prems(1,2) by (simp add: fits_int64_def)
    then have n3: "int64 (n2 + Np) = n2 + Np" by (rule int64_id)
    have step: "redefine_cycle_loop v sp Np N n c cv
                 = redefine_cycle_loop v sp Np N (n2 + Np) (c + 1) cv'"
      using True np by (simp only: unfold if_True if_False not_True_eq_False simp_thms n3)
    have ge: "n + Np \<le> n2" using n1 n2 by linarith
    have m: "nat (N - (n2 + Np)) < nat (N - n)" using True less.prems(1) ge by linarith
    have p2: "0 \<le> n2 + Np" using less.prems(1) n2pos by linarith
    have p3: "sorted cv'"
      unfolding cv'_def
    proof (rule slice_assign_sorted)
      show "sorted cv" using less.prems(4) .
      show "\<forall>x\<in>set cv. x \<le> real_of_int (c + 1)"
      proof
        fix x assume "x \<in> set cv"
        then have "x \<le> of_int c" using less.prems(5) by blast
        then show "x \<le> real_of_int (c + 1)" by simp
      qed
    qed
    have p4: "\<forall>x\<in>set cv'. x \<in> \<int> \<and> x \<le> of_int (c + 1)"
    proof
      fix x assume "x \<in> set cv'"
      then have "x \<in> set cv \<or> x = of_int (c + 1)"
        unfolding cv'_def by (rule slice_assign_set)
      then show "x \<in> \<int> \<and> x \<le> of_int (c + 1)"
      proof
        assume "x \<in> set cv"
        then have "x \<in> \<int> \<and> x \<le> of_int c" using less.prems(5) by blast
        then show ?thesis by simp
      next
        assume "x = of_int (c + 1)"
        then show ?thesis by simp
      qed
    qed
    have len: "length cv' = length cv" unfolding cv'_def by (rule slice_assign_length)
    have p5: "cv' \<noteq> [] \<longrightarrow> cv' ! 0 = 0"
    proof
      assume "cv' \<noteq> []"
      then have ne: "cv \<noteq> []" using len by auto
      then show "cv' ! 0 = 0"
        using slice_assign_first[OF n2pos ne] less.prems(6) by (simp add: cv'_def)
    qed
    from less.hyps[OF m less.prems(1) less.prems(2) p2 p3 p4 p5]
    show ?thesis by (simp only: step len)
  qed
qed

lemma length_map_neg: "length (map float64_neg v) = length v"
  by simp

text \<open>
  C5 on the code. The index of the loop is a 64-bit integer. At the potentials
  \<open>[5, 0, 5]\<close>, the start potential 1, the anodic direction and \<open>N_points = 2^63 - 1\<close> the
  first advance of the index wraps around to \<open>-2^63\<close>, the slice from there is the whole
  array, and the whole cycle vector is stamped with 1: its first element is not 0.
\<close>

theorem redefine_cycle_index_wraps_counterexample:
  "(1::int) \<le> 2 ^ 63 - 1
   \<and> redefine_cycle [0, 1, 2] [Num 5, Num 0, Num 5] [] (Some 1) (Some True) (2 ^ 63 - 1)
       = Some (Inr [1, 1, 1])
   \<and> [1, 1, 1 :: real] ! 0 \<noteq> 0"
  by code_simp

text \<open>
  C5, amended. For every time array, every potential array, every given start
  potential, either redox direction and every \<open>N_points \<ge> 1\<close> that, added to the length of
  the potential array, stays within 64 bits (\<open>len(v) + N_points \<le> 2^63\<close>), the
  segmentation returns (the loop stops and nothing is raised), and the cycle vector it
  returns has the length of the time array, holds whole numbers only, is non-decreasing,
  and starts with 0 when there is a first element. The potential array need not even
  have the length of the time array.
\<close>

theorem redefine_cycle_contract:
  assumes "1 \<le> N_points" and "int (length v) + N_points \<le> 2 ^ 63"
  shows "\<exists>cycle. redefine_cycle t v cycle_number (Some start_potential) redox N_points
                   = Some (Inr cycle)
           \<and> length cycle = length t
           \<and> (\<forall>x\<in>set cycle. x \<in> \<int>)
           \<and> sorted cycle
           \<and> (t \<noteq> [] \<longrightarrow> cycle ! 0 = 0)"
proof -
  let ?cv = "replicate (length t) (0::real)"
  have s: "sorted ?cv" by simp
  have i: "\<forall>x\<in>set ?cv. x \<in> \<int> \<and> x \<le> of_int 0" by simp
  have f: "?cv \<noteq> [] \<longrightarrow> ?cv ! 0 = 0" by simp
  have z: "(0::int) \<le> 0" by simp
  have b: "int (length (map float64_neg v)) + N_points \<le> 2 ^ 63"
    using assms(2) by (simp only: length_map_neg)
  show ?thesis
  proof (cases "redox = Some True")
    case True
    from redefine_cycle_loop_returns[OF assms(1) assms(2) z s i f, of start_potential
        "int (length t)"]
    show ?thesis using True by (auto simp: redefine_cycle_def Let_def)
  next
    case False
    from redefine_cycle_loop_returns[OF assms(1) b z s i f, of "- start_potential"
        "int (length t)"]
    show ?thesis using False by (auto simp: redefine_cycle_def Let_def)
  qed
qed

text \<open>Two anodic sweeps through 1 V with a debounce of two points.\<close>

theorem redefine_cycle_contract_witness:
  "(1::int) \<le> 2
   \<and> int (length (map Num [0, 0, 0, 5, 5, 5, 0, 0, 0, 5])) + 2 \<le> 2 ^ 63
   \<and> redefine_cycle [0, 1, 2, 3, 4, 5, 6, 7, 8, 9] (map Num [0, 0, 0, 5, 5, 5, 0, 0, 0, 5]) []
        (Some 1) (Some True) 2 = Some (Inr [0, 0, 0, 1, 1, 1, 1, 1, 1, 2])
   \<and> (\<exists>cycle. redefine_cycle [0, 1, 2, 3, 4, 5, 6, 7, 8, 9]
                 (map Num [0, 0, 0, 5, 5, 5, 0, 0, 0, 5]) [] (Some 1) (Some True) 2
                 = Some (Inr cycle)
         \<and> length cycle = length [0, 1, 2, 3, 4, 5, 6, 7, 8, 9 :: real] \<and> sorted cycle)"
proof -
  have e: "redefine_cycle [0, 1, 2, 3, 4, 5, 6, 7, 8, 9] (map Num [0, 0, 0, 5, 5, 5, 0, 0, 0, 5]) []
        (Some 1) (Some True) 2 = Some (Inr [0, 0, 0, 1, 1, 1, 1, 1, 1, 2])"
    by code_simp
  have h: "(1::int) \<le> 2" by simp
  have h2: "int (length (map Num [0, 0, 0, 5, 5, 5, 0, 0, 0, 5])) + 2 \<le> 2 ^ 63" by simp
  from redefine_cycle_contract[OF h h2, of "[0, 1, 2, 3, 4, 5, 6, 7, 8, 9]" "[]" 1 "Some True"]
  show ?thesis using e h h2 by auto
qed

text \<open>
  C4 on the code. With the potentials \<open>[0, 5, 5]\<close>, the start potential 1, the anodic
  direction and \<open>N_points = 2\<close>, the cycle counter goes up at index 2 although the
  sample right before it, at index 1, is not behind the start potential: the loop
  advances \<open>N_points\<close> samples past the first sample behind without looking at them.
\<close>

theorem redefine_cycle_skips_without_checking:
  "redefine_cycle [0, 1, 2] [Num 0, Num 5, Num 5] [] (Some 1) (Some True) 2
     = Some (Inr [0, 0, 1])
   \<and> \<not> float64_lt ([Num 0, Num 5, Num 5] ! 1) 1"
  by code_simp

end
